theory Spec2Isabelle
  imports Main "HOL-Library.Char_ord" "HOL-Library.List_Lexorder" "HOL-Library.Sublist"
begin

section \<open>Data model of main.go\<close>

text \<open>
  \<^verbatim>\<open>type Severity string\<close> with the two constants \<^verbatim>\<open>Warning\<close> and \<^verbatim>\<open>Error\<close>.
  The Go type is an open string type: any string converts to it.
\<close>

type_synonym Severity = string

definition Warning :: Severity where
  "Warning = ''warning''"

definition Error :: Severity where
  "Error = ''error''"

text \<open>
  \<^verbatim>\<open>type Issue struct { severity; path; line; col; message }\<close>.
  Go's \<^verbatim>\<open>int\<close> fields are modelled as unbounded integers: every value stored in them comes from
  \<^verbatim>\<open>strconv.ParseInt(part, 10, 32)\<close> and so fits the machine type.
\<close>

record Issue =
  severity :: Severity
  path :: string
  line :: int
  col :: int
  message :: string

text \<open>The zero value \<^verbatim>\<open>&Issue{}\<close>.\<close>

definition Issue_zero :: Issue where
  "Issue_zero = \<lparr>severity = [], path = [], line = 0, col = 0, message = []\<rparr>"

section \<open>Formatting: \<^verbatim>\<open>fmt.Sprintf\<close> with \<^verbatim>\<open>%d\<close> and \<^verbatim>\<open>%s\<close>\<close>

definition digit_char :: "nat \<Rightarrow> char" where
  "digit_char d = ''0123456789'' ! d"

fun digits10 :: "nat \<Rightarrow> string" where
  "digits10 n = (if n < 10 then [digit_char n] else digits10 (n div 10) @ [digit_char (n mod 10)])"

declare digits10.simps [simp del]

text \<open>The verb \<^verbatim>\<open>%d\<close> on a Go \<^verbatim>\<open>int\<close>: decimal, with a minus sign for negative values.\<close>

definition fmt_d :: "int \<Rightarrow> string" where
  "fmt_d n = (if n < 0 then CHR ''-'' # digits10 (nat (- n)) else digits10 (nat n))"

text \<open>
  \<^verbatim>\<open>func (m *Issue) String() string\<close>:
  \<^verbatim>\<open>col := ""; if m.col != 0 { col = fmt.Sprintf("%d", m.col) }\<close>
  \<^verbatim>\<open>return fmt.Sprintf("%s:%d:%s:%s: %s", m.path, m.line, col, m.severity, m.message)\<close>
\<close>

definition Issue_String :: "Issue \<Rightarrow> string" where
  "Issue_String m =
     (let c = (if col m \<noteq> 0 then fmt_d (col m) else [])
      in path m @ '':'' @ fmt_d (line m) @ '':'' @ c @ '':'' @ severity m @ '': '' @ message m)"

section \<open>The comparison \<^verbatim>\<open>Issues.Less\<close>\<close>

text \<open>
  \<^verbatim>\<open>return m[i].path < m[j].path || m[i].line < m[j].line || m[i].col < m[j].col\<close>.
  Go compares strings bytewise, which is the lexicographic order on character lists.
\<close>

definition Less :: "Issue \<Rightarrow> Issue \<Rightarrow> bool" where
  "Less a b \<longleftrightarrow> path a < path b \<or> line a < line b \<or> col a < col b"

section \<open>\<^verbatim>\<open>strconv.ParseInt(s, 10, 32)\<close>\<close>

datatype num_error = ErrSyntax | ErrRange

definition is_digit :: "char \<Rightarrow> bool" where
  "is_digit c \<longleftrightarrow> CHR ''0'' \<le> c \<and> c \<le> CHR ''9''"

definition digit_val :: "char \<Rightarrow> int" where
  "digit_val c = of_char c - of_char CHR ''0''"

text \<open>
  The digit loop of \<^verbatim>\<open>ParseUint\<close> for base 10 and bit size 32, on a 64-bit accumulator
  (an integer kept below \<open>2 ^ 64\<close>): a byte that is not a decimal digit is a syntax error;
  \<^verbatim>\<open>n >= cutoff\<close> (the product would overflow 64 bits), a wrapped sum or a sum above
  \<^verbatim>\<open>maxVal = 1<<32 - 1\<close> is a range error.
\<close>

definition cutoff64 :: int where
  "cutoff64 = (2 ^ 64 - 1) div 10 + 1"

definition maxVal32 :: int where
  "maxVal32 = 2 ^ 32 - 1"

fun ParseUint_loop :: "int \<Rightarrow> string \<Rightarrow> num_error + int" where
  "ParseUint_loop n [] = Inr n"
| "ParseUint_loop n (d # ds) =
     (if \<not> is_digit d then Inl ErrSyntax
      else if n \<ge> cutoff64 then Inl ErrRange
      else (let n10 = n * 10; n1 = (n10 + digit_val d) mod 2 ^ 64
            in if n1 < n10 \<or> n1 > maxVal32 then Inl ErrRange else ParseUint_loop n1 ds))"

definition ParseUint :: "string \<Rightarrow> num_error + int" where
  "ParseUint s = (if s = [] then Inl ErrSyntax else ParseUint_loop 0 s)"

text \<open>
  \<^verbatim>\<open>ParseInt\<close>: the empty string is a syntax error; one leading sign is removed; the rest goes
  through \<^verbatim>\<open>ParseUint\<close>; a magnitude outside the signed 32-bit range is a range error.
\<close>

definition ParseInt :: "string \<Rightarrow> num_error + int" where
  "ParseInt s =
     (if s = [] then Inl ErrSyntax
      else (let neg = (hd s = CHR ''-'');
                s1 = (if hd s = CHR ''+'' \<or> hd s = CHR ''-'' then tl s else s);
                cutoff = (2::int) ^ 31
            in case ParseUint s1 of
                 Inl e \<Rightarrow> Inl e
               | Inr un \<Rightarrow>
                   if \<not> neg \<and> un \<ge> cutoff then Inl ErrRange
                   else if neg \<and> un > cutoff then Inl ErrRange
                   else Inr (if neg then - un else un)))"

section \<open>Library functions on strings\<close>

text \<open>
  \<^verbatim>\<open>strings.Replace(s, old, new, -1)\<close>: every non-overlapping occurrence of \<^verbatim>\<open>old\<close>, from the
  left. Both call sites pass a non-empty constant for \<^verbatim>\<open>old\<close> (\<^verbatim>\<open>{path}\<close>, \<^verbatim>\<open>{message}\<close>);
  for an empty \<^verbatim>\<open>old\<close> the model leaves the string as it is.
\<close>

function Replace :: "string \<Rightarrow> string \<Rightarrow> string \<Rightarrow> string" where
  "Replace s old new =
     (if s = [] \<or> old = [] then s
      else if prefix old s then new @ Replace (drop (length old) s) old new
      else hd s # Replace (tl s) old new)"
  by pat_completeness auto
termination
  by (relation "measure (\<lambda>(s, old, new). length s)") auto

declare Replace.simps [simp del]

text \<open>\<^verbatim>\<open>bytes.Split(out, []byte("\n"))\<close>: the pieces between newline bytes, never an empty list.\<close>

fun Split_nl :: "string \<Rightarrow> string list" where
  "Split_nl [] = [[]]"
| "Split_nl (c # cs) =
     (if c = CHR 0x0A then [] # Split_nl cs
      else (case Split_nl cs of [] \<Rightarrow> [[c]] | l # ls \<Rightarrow> (c # l) # ls))"

text \<open>
  \<^verbatim>\<open>strings.SplitN(description, ":", 2)\<close>: the text before the first colon and the text after
  it, or the whole text alone when it has no colon.
\<close>

fun SplitN2 :: "string \<Rightarrow> string list" where
  "SplitN2 [] = [[]]"
| "SplitN2 (c # cs) =
     (if c = CHR '':'' then [[], cs]
      else (case SplitN2 cs of [] \<Rightarrow> [[c]] | l # ls \<Rightarrow> (c # l) # ls))"

section \<open>Regular expressions\<close>

text \<open>
  The fragment of Go's \<^verbatim>\<open>regexp\<close> syntax that the patterns of main.go use: literal bytes, the
  classes \<^verbatim>\<open>[^c]\<close>, \<^verbatim>\<open>\d\<close>, \<^verbatim>\<open>\s\<close> and \<^verbatim>\<open>.\<close> under the greedy operators \<^verbatim>\<open>*\<close> and \<^verbatim>\<open>+\<close>,
  and capturing groups \<^verbatim>\<open>(?P<name>...)\<close> (the empty name stands for an unnamed group).
  Input is matched bytewise.
\<close>

datatype cclass = NotChar char | Digit | Space | Dot

fun in_class :: "cclass \<Rightarrow> char \<Rightarrow> bool" where
  "in_class (NotChar x) c = (c \<noteq> x)"
| "in_class Digit c = is_digit c"
| "in_class Space c = (c \<in> set [CHR 0x09, CHR 0x0A, CHR 0x0C, CHR 0x0D, CHR '' ''])"
| "in_class Dot c = (c \<noteq> CHR 0x0A)"

datatype atom = Lit char | Star cclass | Plus cclass | Group string "atom list"

text \<open>
  All ways to split off a prefix of bytes of the class, the longest first: the order in which
  a greedy repetition gives bytes back.
\<close>

fun rep_splits :: "(char \<Rightarrow> bool) \<Rightarrow> string \<Rightarrow> (string \<times> string) list" where
  "rep_splits p [] = [([], [])]"
| "rep_splits p (c # cs) =
     (if p c then map (\<lambda>(a, r). (c # a, r)) (rep_splits p cs) else []) @ [([], c # cs)]"

text \<open>
  Matching anchored at the start of the input, as the list of all successes in the priority
  order of a backtracking matcher; each success is the captured texts (in the order of the
  opening parentheses) and the unconsumed rest. The head of the list is the leftmost-first
  match that Go's (non-POSIX) \<^verbatim>\<open>regexp\<close> reports.
\<close>

fun m_atom :: "atom \<Rightarrow> string \<Rightarrow> (string list \<times> string) list"
  and m_seq :: "atom list \<Rightarrow> string \<Rightarrow> (string list \<times> string) list" where
  "m_atom (Lit c) s = (case s of [] \<Rightarrow> [] | x # xs \<Rightarrow> if x = c then [([], xs)] else [])"
| "m_atom (Star k) s = map (\<lambda>(a, r). ([], r)) (rep_splits (in_class k) s)"
| "m_atom (Plus k) s = map (\<lambda>(a, r). ([], r)) (filter (\<lambda>(a, r). a \<noteq> []) (rep_splits (in_class k) s))"
| "m_atom (Group nm as) s = map (\<lambda>(caps, r). (take (length s - length r) s # caps, r)) (m_seq as s)"
| "m_seq [] s = [([], s)]"
| "m_seq (a # as) s =
     concat (map (\<lambda>(c1, r). map (\<lambda>(c2, r2). (c1 @ c2, r2)) (m_seq as r)) (m_atom a s))"

text \<open>The groups of the first match anchored at the start: group 0 is the whole match.\<close>

definition match_at :: "atom list \<Rightarrow> string \<Rightarrow> string list option" where
  "match_at re s =
     (case m_seq re s of [] \<Rightarrow> None
      | (caps, rest) # _ \<Rightarrow> Some (take (length s - length rest) s # caps))"

text \<open>The leftmost start at which the expression matches: bytes skipped, and the groups.\<close>

fun find_leftmost :: "atom list \<Rightarrow> string \<Rightarrow> (nat \<times> string list) option" where
  "find_leftmost re [] = map_option (Pair 0) (match_at re [])"
| "find_leftmost re (c # cs) =
     (case match_at re (c # cs) of
        Some g \<Rightarrow> Some (0, g)
      | None \<Rightarrow> map_option (\<lambda>(k, g). (Suc k, g)) (find_leftmost re cs))"

text \<open>
  \<^verbatim>\<open>re.doExecute(..., pos, ...)\<close>: the first match starting at or after \<^verbatim>\<open>pos\<close>, as the start
  and end offsets of the whole match and the groups.
\<close>

definition doExecute :: "atom list \<Rightarrow> string \<Rightarrow> nat \<Rightarrow> (nat \<times> nat \<times> string list) option" where
  "doExecute re b pos =
     (if pos > length b then None
      else map_option (\<lambda>(k, g). (pos + k, pos + k + length (hd g), g))
             (find_leftmost re (drop pos b)))"

text \<open>
  The loop of \<^verbatim>\<open>Regexp.allMatches\<close> behind \<^verbatim>\<open>FindAllSubmatch(line, -1)\<close>: successive
  non-overlapping matches; an empty match right after the previous match is dropped, and
  after an empty match the search moves one byte on.
\<close>

function allMatches :: "atom list \<Rightarrow> string \<Rightarrow> nat \<Rightarrow> int \<Rightarrow> string list list" where
  "allMatches re b pos prevMatchEnd =
     (if pos > length b then []
      else (case doExecute re b pos of
              None \<Rightarrow> []
            | Some (m0, m1, g) \<Rightarrow>
                (let accept = \<not> (m1 = pos \<and> int m0 = prevMatchEnd);
                     pos' = (if m1 = pos then pos + 1 else m1)
                 in (if accept then [g] else []) @ allMatches re b pos' (int m1))))"
  by pat_completeness auto
termination
proof (relation "measure (\<lambda>(re, b, pos, p). Suc (length b) - pos)")
  fix re :: "atom list" and b :: string and pos :: nat and prevMatchEnd :: int
    and x2 x y xa ya xb xc
  assume inside: "\<not> length b < pos"
    and ex: "doExecute re b pos = Some x2" "(x, y) = x2" "(xa, ya) = y"
    and next_pos: "xc = (if xa = pos then pos + 1 else xa)"
  from ex have "pos \<le> xa"
    by (auto simp: doExecute_def split: if_splits)
  with inside next_pos have "Suc (length b) - xc < Suc (length b) - pos"
    by (auto split: if_splits)
  then show "((re, b, xc, int xa), re, b, pos, prevMatchEnd)
      \<in> measure (\<lambda>(re, b, pos, p). Suc (length b) - pos)"
    by simp
qed simp

declare allMatches.simps [simp del]

text \<open>The names of the groups, \<^verbatim>\<open>re.SubexpNames()\<close>: index 0 is the whole match, named \<^verbatim>\<open>""\<close>.\<close>

fun names_atom :: "atom \<Rightarrow> string list"
  and names_seq :: "atom list \<Rightarrow> string list" where
  "names_atom (Lit c) = []"
| "names_atom (Star k) = []"
| "names_atom (Plus k) = []"
| "names_atom (Group nm as) = nm # names_seq as"
| "names_seq [] = []"
| "names_seq (a # as) = names_atom a @ names_seq as"

text \<open>
  A compiled expression as executeLinter uses it: the two methods it calls. Any expression of
  Go's full syntax is a value of this type; \<open>regexp_of\<close> gives the one of a syntax tree.
\<close>

record Regexp =
  SubexpNames :: "string list"
  FindAllSubmatch :: "string \<Rightarrow> string list list"

definition regexp_of :: "atom list \<Rightarrow> Regexp" where
  "regexp_of re = \<lparr>SubexpNames = [] # names_seq re,
                   FindAllSubmatch = (\<lambda>b. allMatches re b 0 (- 1))\<rparr>"

section \<open>Configuration\<close>

text \<open>
  The pattern texts of \<^verbatim>\<open>predefinedPatterns\<close>; \<open>bsl\<close> is the backslash byte.
\<close>

definition bsl :: string where
  "bsl = [CHR 0x5C]"

definition pat_PATH_LINE_COL_MESSAGE :: string where
  "pat_PATH_LINE_COL_MESSAGE =
     ''(?P<path>[^:]+):(?P<line>'' @ bsl @ ''d+):(?P<col>'' @ bsl @ ''d+):'' @ bsl
       @ ''s*(?P<message>.*)''"

definition pat_PATH_LINE_MESSAGE :: string where
  "pat_PATH_LINE_MESSAGE =
     ''(?P<path>[^:]+):(?P<line>'' @ bsl @ ''d+):'' @ bsl @ ''s*(?P<message>.*)''"

definition predefinedPatterns :: "string \<rightharpoonup> string" where
  "predefinedPatterns =
     [''PATH:LINE:COL:MESSAGE'' \<mapsto> pat_PATH_LINE_COL_MESSAGE,
      ''PATH:LINE:MESSAGE'' \<mapsto> pat_PATH_LINE_MESSAGE]"

text \<open>The syntax trees of the two predefined patterns.\<close>

definition re_PATH_LINE_COL_MESSAGE :: "atom list" where
  "re_PATH_LINE_COL_MESSAGE =
     [Group ''path'' [Plus (NotChar CHR '':'')], Lit CHR '':'',
      Group ''line'' [Plus Digit], Lit CHR '':'',
      Group ''col'' [Plus Digit], Lit CHR '':'',
      Star Space, Group ''message'' [Star Dot]]"

definition re_PATH_LINE_MESSAGE :: "atom list" where
  "re_PATH_LINE_MESSAGE =
     [Group ''path'' [Plus (NotChar CHR '':'')], Lit CHR '':'',
      Group ''line'' [Plus Digit], Lit CHR '':'',
      Star Space, Group ''message'' [Star Dot]]"

text \<open>
  The flag maps \<^verbatim>\<open>linterMessageOverrideFlag\<close> and \<^verbatim>\<open>linterSeverityFlag\<close> (the defaults of
  the source, which the command line can extend and overwrite with any strings), and the
  exclusion filter as the predicate \<^verbatim>\<open>filter.MatchString\<close>.
\<close>

record flags =
  linterMessageOverrideFlag :: "string \<rightharpoonup> string"
  linterSeverityFlag :: "string \<rightharpoonup> string"
  excludeFilter :: "(string \<Rightarrow> bool) option"

definition default_linterMessageOverrideFlag :: "string \<rightharpoonup> string" where
  "default_linterMessageOverrideFlag =
     [''errcheck'' \<mapsto> ''error return value not checked ({message})'',
      ''varcheck'' \<mapsto> ''unused global variable {message}'',
      ''structcheck'' \<mapsto> ''unused struct field {message}'']"

definition default_linterSeverityFlag :: "string \<rightharpoonup> string" where
  "default_linterSeverityFlag =
     [''errcheck'' \<mapsto> ''warning'', ''golint'' \<mapsto> ''warning'',
      ''varcheck'' \<mapsto> ''warning'', ''structcheck'' \<mapsto> ''warning'']"

definition default_flags :: flags where
  "default_flags = \<lparr>linterMessageOverrideFlag = default_linterMessageOverrideFlag,
                     linterSeverityFlag = default_linterSeverityFlag,
                     excludeFilter = None\<rparr>"

section \<open>The environment of a run\<close>

text \<open>
  What \<^verbatim>\<open>cmd.CombinedOutput()\<close> returns besides the output: no error, an \<^verbatim>\<open>*exec.ExitError\<close>
  (the process ran and exited non-zero), or any other error (the process could not be
  started).
\<close>

datatype cmd_err = ExitError | OtherError

text \<open>
  \<^verbatim>\<open>regexp.Compile\<close> (\<open>None\<close> is a compile error) and the shell that runs a command line.
\<close>

record env =
  Compile :: "string \<Rightarrow> Regexp option"
  CombinedOutput :: "string \<Rightarrow> string \<times> cmd_err option"

text \<open>
  How executeLinter can end the process: the \<^verbatim>\<open>kingpin\<close> fatal calls, which print the message
  and exit with status 1, and the runtime panic of an index out of range.
\<close>

datatype abort = Fatal string | Panic string

definition line_invalid :: abort where
  "line_invalid = Fatal ''line matched invalid integer''"

definition col_invalid :: abort where
  "col_invalid = Fatal ''col matched invalid integer''"

section \<open>executeLinter\<close>

text \<open>
  The loop \<^verbatim>\<open>for i, name := range re.SubexpNames()\<close> over the groups \<^verbatim>\<open>groups[0]\<close> of the
  first match, from index \<open>i\<close> on.
\<close>

fun set_fields :: "nat \<Rightarrow> string list \<Rightarrow> string list \<Rightarrow> Issue \<Rightarrow> abort + Issue" where
  "set_fields i [] g issue = Inr issue"
| "set_fields i (name # names) g issue =
     (if i \<ge> length g then Inl (Panic ''index out of range'')
      else (let part = g ! i in
        if name = ''path'' then set_fields (Suc i) names g (issue\<lparr>path := part\<rparr>)
        else if name = ''line'' then
          (case ParseInt part of
             Inl e \<Rightarrow> Inl line_invalid
           | Inr n \<Rightarrow> set_fields (Suc i) names g (issue\<lparr>line := n\<rparr>))
        else if name = ''col'' then
          (case ParseInt part of
             Inl e \<Rightarrow> Inl col_invalid
           | Inr n \<Rightarrow> set_fields (Suc i) names g (issue\<lparr>col := n\<rparr>))
        else if name = ''message'' then set_fields (Suc i) names g (issue\<lparr>message := part\<rparr>)
        else if name = [] then set_fields (Suc i) names g issue
        else Inl (Fatal (''invalid subgroup '' @ name))))"

text \<open>The message override and the severity of one issue of the linter \<open>name\<close>.\<close>

definition finish_issue :: "flags \<Rightarrow> string \<Rightarrow> Issue \<Rightarrow> Issue" where
  "finish_issue fl name issue =
     (let issue1 = (case linterMessageOverrideFlag fl name of
                      Some m \<Rightarrow> issue\<lparr>message := Replace m ''{message}'' (message issue)\<rparr>
                    | None \<Rightarrow> issue)
      in case linterSeverityFlag fl name of
           Some sev \<Rightarrow> issue1\<lparr>severity := sev\<rparr>
         | None \<Rightarrow> issue1\<lparr>severity := ''error''\<rparr>)"

text \<open>
  The loop over the lines of the output: a line without a match is skipped; otherwise one
  issue is built from \<^verbatim>\<open>groups[0]\<close> and sent to the channel. The result is the issues sent,
  in order, or the abort that ended the process.
\<close>

fun extract_lines :: "Regexp \<Rightarrow> flags \<Rightarrow> string \<Rightarrow> string list \<Rightarrow> abort + Issue list" where
  "extract_lines re fl name [] = Inr []"
| "extract_lines re fl name (l # ls) =
     (case FindAllSubmatch re l of
        [] \<Rightarrow> extract_lines re fl name ls
      | g0 # gs \<Rightarrow>
          (case set_fields 0 (SubexpNames re) g0 Issue_zero of
             Inl e \<Rightarrow> Inl e
           | Inr issue \<Rightarrow>
               (case extract_lines re fl name ls of
                  Inl e \<Rightarrow> Inl e
                | Inr rest \<Rightarrow> Inr (finish_issue fl name issue # rest))))"

definition executeLinter ::
    "env \<Rightarrow> flags \<Rightarrow> string \<Rightarrow> string \<Rightarrow> string \<Rightarrow> string \<Rightarrow> abort + Issue list" where
  "executeLinter e fl name command pattern paths =
     (let pattern1 = (case predefinedPatterns pattern of Some p \<Rightarrow> p | None \<Rightarrow> pattern)
      in case Compile e pattern1 of
           None \<Rightarrow> Inl (Fatal (''invalid pattern for '' @ [CHR 0x27] @ command @ [CHR 0x27]))
         | Some re \<Rightarrow>
             (let command1 = Replace command ''{path}'' paths;
                  (out, err) = CombinedOutput e command1
              in if err = Some OtherError then Inr []
                 else extract_lines re fl name (Split_nl out)))"

section \<open>main\<close>

text \<open>
  The tasks of a run in the order in which they are admitted, each running to its end before
  the next starts: the schedule of a run with one enabled linter or with concurrency 1, and
  one of the possible schedules of any other run. A linter in \<open>disable\<close> is skipped; a
  description without a colon panics at \<^verbatim>\<open>parts[1]\<close>.
\<close>

fun run_tasks ::
    "env \<Rightarrow> flags \<Rightarrow> string set \<Rightarrow> string \<Rightarrow> (string \<times> string) list \<Rightarrow> abort + Issue list" where
  "run_tasks e fl disable paths [] = Inr []"
| "run_tasks e fl disable paths ((name, description) # linters) =
     (if name \<in> disable then run_tasks e fl disable paths linters
      else (case SplitN2 description of
              [command, pattern] \<Rightarrow>
                (case executeLinter e fl name command pattern paths of
                   Inl a \<Rightarrow> Inl a
                 | Inr issues \<Rightarrow>
                     (case run_tasks e fl disable paths linters of
                        Inl a \<Rightarrow> Inl a
                      | Inr later \<Rightarrow> Inr (issues @ later)))
            | _ \<Rightarrow> Inl (Panic ''index out of range'')))"

text \<open>
  The end of \<^verbatim>\<open>main\<close>: \<^verbatim>\<open>for issue := range issues\<close> prints every issue of the channel, in
  channel order, unless the exclusion filter matches its rendered line.
\<close>

definition print_issues :: "flags \<Rightarrow> Issue list \<Rightarrow> string list" where
  "print_issues fl issues =
     map Issue_String
       (filter (\<lambda>issue. case excludeFilter fl of None \<Rightarrow> True
                         | Some f \<Rightarrow> \<not> f (Issue_String issue)) issues)"

definition main ::
    "env \<Rightarrow> flags \<Rightarrow> string set \<Rightarrow> string \<Rightarrow> (string \<times> string) list \<Rightarrow> abort + string list" where
  "main e fl disable paths linters =
     (case run_tasks e fl disable paths linters of
        Inl a \<Rightarrow> Inl a
      | Inr issues \<Rightarrow> Inr (print_issues fl issues))"

section \<open>Admission of tasks through the channel \<^verbatim>\<open>concurrency\<close>\<close>

text \<open>
  Each task runs \<^verbatim>\<open>concurrency <- true; executeLinter(...); <-concurrency; wg.Done()\<close>.
  A task is before its send, inside executeLinter, before its receive, or done. The channel is
  buffered with capacity \<open>K\<close> (\<^verbatim>\<open>make(chan bool, *concurrencyFlag)\<close>): a send completes only
  while fewer than \<open>K\<close> values are buffered, a receive only while one is. With \<open>K = 0\<close> a send
  needs a waiting receiver, and a task receives only after its own send: no send completes.
\<close>

datatype pc = Waiting | Running | Releasing | Finished

record pool =
  chan_len :: nat
  pcs :: "pc list"

definition init_pool :: "nat \<Rightarrow> pool" where
  "init_pool n = \<lparr>chan_len = 0, pcs = replicate n Waiting\<rparr>"

text \<open>
  One scheduling decision: task \<open>i\<close> is given the processor and takes its next step if that
  step is enabled; a blocked task leaves the state as it is.
\<close>

definition step :: "nat \<Rightarrow> pool \<Rightarrow> nat \<Rightarrow> pool" where
  "step K s i =
     (if i \<ge> length (pcs s) then s
      else (case pcs s ! i of
              Waiting \<Rightarrow>
                if chan_len s < K
                then s\<lparr>chan_len := chan_len s + 1, pcs := (pcs s)[i := Running]\<rparr>
                else s
            | Running \<Rightarrow> s\<lparr>pcs := (pcs s)[i := Releasing]\<rparr>
            | Releasing \<Rightarrow>
                if chan_len s > 0
                then s\<lparr>chan_len := chan_len s - 1, pcs := (pcs s)[i := Finished]\<rparr>
                else s
            | Finished \<Rightarrow> s))"

text \<open>The state after a schedule, and the number of tasks inside executeLinter.\<close>

definition run_schedule :: "nat \<Rightarrow> nat \<Rightarrow> nat list \<Rightarrow> pool" where
  "run_schedule K n sched = foldl (step K) (init_pool n) sched"

definition count_pc :: "pc \<Rightarrow> pool \<Rightarrow> nat" where
  "count_pc p s = length (filter (\<lambda>q. q = p) (pcs s))"

section \<open>Concrete runs\<close>

text \<open>
  A user-supplied pattern without a trailing \<^verbatim>\<open>.*\<close>, as the flag \<^verbatim>\<open>--linter\<close> accepts:
  \<^verbatim>\<open>(?P<path>[^:]+):(?P<line>\d+)\<close>.
\<close>

definition pat_PATH_LINE :: string where
  "pat_PATH_LINE = ''(?P<path>[^:]+):(?P<line>'' @ bsl @ ''d+)''"

definition re_PATH_LINE :: "atom list" where
  "re_PATH_LINE =
     [Group ''path'' [Plus (NotChar CHR '':'')], Lit CHR '':'', Group ''line'' [Plus Digit]]"

text \<open>
  \<^verbatim>\<open>regexp.Compile\<close> on the pattern texts whose syntax trees are written out above (the parser
  of the library is not modelled); used to evaluate runs on concrete inputs.
\<close>

definition Compile_tab :: "string \<Rightarrow> Regexp option" where
  "Compile_tab =
     [pat_PATH_LINE_COL_MESSAGE \<mapsto> regexp_of re_PATH_LINE_COL_MESSAGE,
      pat_PATH_LINE_MESSAGE \<mapsto> regexp_of re_PATH_LINE_MESSAGE,
      pat_PATH_LINE \<mapsto> regexp_of re_PATH_LINE]"

text \<open>An environment in which every command prints \<open>out\<close> and ends with \<open>err\<close>.\<close>

definition env_of :: "string \<Rightarrow> cmd_err option \<Rightarrow> env" where
  "env_of out err = \<lparr>Compile = Compile_tab, CombinedOutput = (\<lambda>command. (out, err))\<rparr>"

text \<open>
  An environment in which \<^verbatim>\<open>golint\<close> cannot be started and every other command prints one
  finding and exits non-zero.
\<close>

definition env_no_golint :: env where
  "env_no_golint =
     \<lparr>Compile = Compile_tab,
      CombinedOutput = (\<lambda>command. if command = ''golint .'' then ([], Some OtherError)
                                    else (''a.go:5:3: bad'' @ [CHR 0x0A], Some ExitError))\<rparr>"

definition nl :: string where
  "nl = [CHR 0x0A]"

text \<open>
  The value that a run of decimal digits denotes, and the check that every matched group list
  of some lines has one entry per group name (which Go's library guarantees).
\<close>

definition dec_value :: "string \<Rightarrow> int" where
  "dec_value s = foldl (\<lambda>n c. 10 * n + digit_val c) 0 s"

definition groups_wf :: "Regexp \<Rightarrow> string list \<Rightarrow> bool" where
  "groups_wf re ls =
     list_all (\<lambda>l. list_all (\<lambda>g. length g = length (SubexpNames re)) (FindAllSubmatch re l)) ls"

text \<open>The group names that the switch of executeLinter accepts.\<close>

definition group_names :: "string set" where
  "group_names = {[], ''path'', ''line'', ''col'', ''message''}"

text \<open>The tasks that have sent to the channel and not yet received from it.\<close>

definition holding :: "pool \<Rightarrow> nat" where
  "holding s = count_pc Running s + count_pc Releasing s"

section \<open>Properties\<close>

lemma extract_lines_severity:
  "extract_lines re fl name ls = Inr issues \<Longrightarrow> issue \<in> set issues \<Longrightarrow>
   severity issue = (case linterSeverityFlag fl name of Some sev \<Rightarrow> sev | None \<Rightarrow> ''error'')"
proof (induction ls arbitrary: issues)
  case Nil
  then show ?case by simp
next
  case (Cons l ls)
  show ?case
  proof (cases "FindAllSubmatch re l")
    case Nil
    with Cons show ?thesis by simp
  next
    case (Cons g0 gs)
    with Cons.prems obtain i0 rest where
      r: "extract_lines re fl name ls = Inr rest" and
      iss: "issues = finish_issue fl name i0 # rest"
      by (auto split: sum.splits)
    from Cons.prems(2) iss have "issue = finish_issue fl name i0 \<or> issue \<in> set rest" by auto
    then show ?thesis
    proof
      assume "issue = finish_issue fl name i0"
      then show ?thesis by (simp add: finish_issue_def split: option.splits)
    next
      assume "issue \<in> set rest"
      with Cons.IH r show ?thesis by blast
    qed
  qed
qed

lemma executeLinter_severity:
  "executeLinter e fl name command pattern paths = Inr issues \<Longrightarrow> issue \<in> set issues \<Longrightarrow>
   severity issue = (case linterSeverityFlag fl name of Some sev \<Rightarrow> sev | None \<Rightarrow> ''error'')"
  by (auto simp: executeLinter_def Let_def split: option.splits prod.splits if_splits
      dest: extract_lines_severity)

text \<open>
  Claim C5: every Issue is rendered exactly as \<^verbatim>\<open><path>:<line>:<col-or-empty>:<severity>: <message>\<close>
  with the numbers in decimal, and an Issue whose column is 0 renders the column field as
  empty, so that two colons follow the line number.
\<close>

theorem Issue_String_format:
  "Issue_String m =
     path m @ '':'' @ fmt_d (line m) @ '':'' @ (if col m = 0 then [] else fmt_d (col m))
       @ '':'' @ severity m @ '': '' @ message m
   \<and> (col m = 0 \<longrightarrow>
        Issue_String m = path m @ '':'' @ fmt_d (line m) @ ''::'' @ severity m @ '': '' @ message m)"
  by (simp add: Issue_String_def)

lemma fmt_d_5: "fmt_d 5 = ''5''"
  by code_simp

theorem Issue_String_format_witness:
  "Issue_String \<lparr>severity = ''error'', path = ''a.go'', line = 5, col = 0, message = ''bad''\<rparr>
     = ''a.go:5::error: bad''"
  using Issue_String_format
    [of "\<lparr>severity = ''error'', path = ''a.go'', line = 5, col = 0, message = ''bad''\<rparr>"]
  by (simp add: fmt_d_5)

text \<open>
  Claim C7: every Issue that executeLinter sends has the severity that the severity map gives
  for the linter, and the severity \<^verbatim>\<open>error\<close> when the map has no entry for it.
\<close>

theorem severity_override_or_error:
  "executeLinter e fl name command pattern paths = Inr issues \<Longrightarrow> issue \<in> set issues \<Longrightarrow>
   (case linterSeverityFlag fl name of
      Some sev \<Rightarrow> severity issue = sev
    | None \<Rightarrow> severity issue = ''error'')"
  by (auto dest: executeLinter_severity split: option.splits)

lemma run_two_findings:
  "executeLinter (env_of (''a.go:5:3: bad'' @ nl @ ''b.go:7:1: worse'' @ nl) None) default_flags
      ''golint'' ''golint {path}'' ''PATH:LINE:COL:MESSAGE'' ''.'' =
    Inr [\<lparr>severity = ''warning'', path = ''a.go'', line = 5, col = 3, message = ''bad''\<rparr>,
         \<lparr>severity = ''warning'', path = ''b.go'', line = 7, col = 1, message = ''worse''\<rparr>]"
  by code_simp

lemma golint_sev: "linterSeverityFlag default_flags ''golint'' = Some ''warning''"
  by code_simp

theorem severity_override_or_error_witness:
  "executeLinter (env_of (''a.go:5:3: bad'' @ nl @ ''b.go:7:1: worse'' @ nl) None) default_flags
      ''golint'' ''golint {path}'' ''PATH:LINE:COL:MESSAGE'' ''.'' =
    Inr [\<lparr>severity = ''warning'', path = ''a.go'', line = 5, col = 3, message = ''bad''\<rparr>,
         \<lparr>severity = ''warning'', path = ''b.go'', line = 7, col = 1, message = ''worse''\<rparr>]
   \<and> severity \<lparr>severity = ''warning'', path = ''b.go'', line = 7, col = 1, message = ''worse''\<rparr>
       = ''warning''"
  using severity_override_or_error [OF run_two_findings,
      of "\<lparr>severity = ''warning'', path = ''b.go'', line = 7, col = 1, message = ''worse''\<rparr>"]
    run_two_findings
  by (simp add: golint_sev)

lemma run_fatal_severity:
  "executeLinter (env_of (''a.go:5:3: bad'' @ nl) None)
      (default_flags\<lparr>linterSeverityFlag := [''golint'' \<mapsto> ''fatal'']\<rparr>)
      ''golint'' ''golint {path}'' ''PATH:LINE:COL:MESSAGE'' ''.'' =
    Inr [\<lparr>severity = ''fatal'', path = ''a.go'', line = 5, col = 3, message = ''bad''\<rparr>]"
  by code_simp

text \<open>
  Claim C4 says that every extracted Issue has a severity in the closed set of warning and
  error, whatever severity map the user supplies. The map's entry is converted as it is:
  with the entry \<^verbatim>\<open>golint:fatal\<close> the Issue of golint has the severity \<^verbatim>\<open>fatal\<close>.
\<close>

theorem severity_closed_set_counterexample:
  "executeLinter (env_of (''a.go:5:3: bad'' @ nl) None)
      (default_flags\<lparr>linterSeverityFlag := [''golint'' \<mapsto> ''fatal'']\<rparr>)
      ''golint'' ''golint {path}'' ''PATH:LINE:COL:MESSAGE'' ''.'' =
    Inr [\<lparr>severity = ''fatal'', path = ''a.go'', line = 5, col = 3, message = ''bad''\<rparr>]
   \<and> ''fatal'' \<notin> {Warning, Error}"
  using run_fatal_severity by (simp add: Warning_def Error_def)

text \<open>
  Claim C4, amended: the severity of every extracted Issue is the severity map's entry for the
  linter, as it is, or error without an entry; it is warning or error whenever every entry of
  the map is, as in the default map.
\<close>

theorem severity_from_map:
  assumes "executeLinter e fl name command pattern paths = Inr issues"
    and "issue \<in> set issues"
  shows "severity issue = (case linterSeverityFlag fl name of Some sev \<Rightarrow> sev | None \<Rightarrow> Error)
    \<and> (ran (linterSeverityFlag fl) \<subseteq> {Warning, Error} \<longrightarrow> severity issue \<in> {Warning, Error})"
proof -
  have s: "severity issue = (case linterSeverityFlag fl name of Some sev \<Rightarrow> sev | None \<Rightarrow> Error)"
    using executeLinter_severity [OF assms] unfolding Error_def .
  show ?thesis
  proof (cases "linterSeverityFlag fl name")
    case None
    with s show ?thesis by simp
  next
    case (Some sev)
    then have "sev \<in> ran (linterSeverityFlag fl)" by (auto simp: ran_def)
    with s Some show ?thesis by auto
  qed
qed

lemma ran_default: "ran (linterSeverityFlag default_flags) \<subseteq> {Warning, Error}"
  by (auto simp: default_flags_def default_linterSeverityFlag_def ran_def Warning_def Error_def
      split: if_splits)

lemma run_one_finding:
  "executeLinter (env_of (''a.go:5:3: bad'' @ nl) None) default_flags
      ''golint'' ''golint {path}'' ''PATH:LINE:COL:MESSAGE'' ''.'' =
    Inr [\<lparr>severity = ''warning'', path = ''a.go'', line = 5, col = 3, message = ''bad''\<rparr>]"
  by code_simp

theorem severity_from_map_witness:
  "executeLinter (env_of (''a.go:5:3: bad'' @ nl) None) default_flags
      ''golint'' ''golint {path}'' ''PATH:LINE:COL:MESSAGE'' ''.'' =
    Inr [\<lparr>severity = ''warning'', path = ''a.go'', line = 5, col = 3, message = ''bad''\<rparr>]
   \<and> ran (linterSeverityFlag default_flags) \<subseteq> {Warning, Error}
   \<and> ''warning'' \<in> {Warning, Error}"
  using severity_from_map [OF run_one_finding,
      of "\<lparr>severity = ''warning'', path = ''a.go'', line = 5, col = 3, message = ''bad''\<rparr>"]
    run_one_finding ran_default
  by (simp add: golint_sev Warning_def)

text \<open>
  Claim C8: when the pattern compiles and the subprocess cannot be started, executeLinter sends
  no Issue and ends normally, and the run gives what the other linters give; when the
  subprocess runs and exits non-zero, its output is extracted as any other output.
\<close>

theorem tool_failure_soft:
  assumes "Compile e (case predefinedPatterns pattern of Some p \<Rightarrow> p | None \<Rightarrow> pattern) = Some re"
    and "CombinedOutput e (Replace command ''{path}'' paths) = (out, Some err)"
  shows "(err = OtherError \<longrightarrow>
            executeLinter e fl name command pattern paths = Inr []
          \<and> (name \<notin> disable \<and> SplitN2 description = [command, pattern] \<longrightarrow>
                main e fl disable paths ((name, description) # linters)
                  = main e fl disable paths linters))
       \<and> (err = ExitError \<longrightarrow>
            executeLinter e fl name command pattern paths = extract_lines re fl name (Split_nl out))"
  using assms
  by (auto simp: executeLinter_def main_def Let_def split: sum.splits)

lemma env_no_golint_Compile:
  "Compile env_no_golint (case predefinedPatterns ''PATH:LINE:COL:MESSAGE'' of Some p \<Rightarrow> p | None \<Rightarrow> ''PATH:LINE:COL:MESSAGE'')
     = Some (regexp_of re_PATH_LINE_COL_MESSAGE)"
  by (simp add: env_no_golint_def Compile_tab_def predefinedPatterns_def
      pat_PATH_LINE_COL_MESSAGE_def pat_PATH_LINE_MESSAGE_def pat_PATH_LINE_def bsl_def)

lemma env_no_golint_out:
  "CombinedOutput env_no_golint (Replace ''golint {path}'' ''{path}'' ''.'') = ([], Some OtherError)"
  by code_simp

lemma env_no_golint_rest:
  "main env_no_golint default_flags {} ''.'' [(''gotype'', ''gotype {path}:PATH:LINE:COL:MESSAGE'')]
     = Inr [''a.go:5:3:error: bad'']"
  by code_simp

lemma golint_split: "SplitN2 ''golint {path}:PATH:LINE:COL:MESSAGE'' = [''golint {path}'', ''PATH:LINE:COL:MESSAGE'']"
  by code_simp

theorem tool_failure_soft_witness:
  "executeLinter env_no_golint default_flags ''golint'' ''golint {path}'' ''PATH:LINE:COL:MESSAGE'' ''.'' = Inr []
   \<and> main env_no_golint default_flags {} ''.''
        [(''golint'', ''golint {path}:PATH:LINE:COL:MESSAGE''),
         (''gotype'', ''gotype {path}:PATH:LINE:COL:MESSAGE'')]
       = Inr [''a.go:5:3:error: bad'']"
  using tool_failure_soft [OF env_no_golint_Compile env_no_golint_out,
      of default_flags "''golint''" "{}" "''golint {path}:PATH:LINE:COL:MESSAGE''"
         "[(''gotype'', ''gotype {path}:PATH:LINE:COL:MESSAGE'')]"]
    golint_split env_no_golint_rest
  by simp

lemma predefined_PLCM:
  "predefinedPatterns ''PATH:LINE:COL:MESSAGE'' = Some pat_PATH_LINE_COL_MESSAGE"
  by (simp add: predefinedPatterns_def)

lemma names_PLCM:
  "SubexpNames (regexp_of re_PATH_LINE_COL_MESSAGE) = [[], ''path'', ''line'', ''col'', ''message'']"
  by (simp add: regexp_of_def re_PATH_LINE_COL_MESSAGE_def)

lemma example_split: "Split_nl (''a.go:5:3: bad'' @ nl) = [''a.go:5:3: bad'', []]"
  by (simp add: nl_def)

lemma example_match:
  "FindAllSubmatch (regexp_of re_PATH_LINE_COL_MESSAGE) ''a.go:5:3: bad''
     = [[''a.go:5:3: bad'', ''a.go'', ''5'', ''3'', ''bad'']]"
  by code_simp

lemma empty_line_no_match:
  "FindAllSubmatch (regexp_of re_PATH_LINE_COL_MESSAGE) [] = []"
  by code_simp

lemma example_fields:
  "set_fields 0 [[], ''path'', ''line'', ''col'', ''message'']
      [''a.go:5:3: bad'', ''a.go'', ''5'', ''3'', ''bad''] Issue_zero
     = Inr \<lparr>severity = [], path = ''a.go'', line = 5, col = 3, message = ''bad''\<rparr>"
  by code_simp

text \<open>
  Claim C6: on the output \<^verbatim>\<open>a.go:5:3: bad\<close> followed by a newline, with the predefined pattern
  PATH:LINE:COL:MESSAGE and no message override for the linter, executeLinter sends exactly
  one Issue, with path \<^verbatim>\<open>a.go\<close>, line 5, column 3 and message \<^verbatim>\<open>bad\<close>.
\<close>

theorem extract_example:
  assumes "Compile e pat_PATH_LINE_COL_MESSAGE = Some (regexp_of re_PATH_LINE_COL_MESSAGE)"
    and "CombinedOutput e (Replace command ''{path}'' paths) = (''a.go:5:3: bad'' @ nl, err)"
    and "err \<noteq> Some OtherError"
    and "linterMessageOverrideFlag fl name = None"
  shows "executeLinter e fl name command ''PATH:LINE:COL:MESSAGE'' paths
           = Inr [\<lparr>severity = (case linterSeverityFlag fl name of Some sev \<Rightarrow> sev
                                  | None \<Rightarrow> ''error''),
                   path = ''a.go'', line = 5, col = 3, message = ''bad''\<rparr>]"
proof -
  let ?re = "regexp_of re_PATH_LINE_COL_MESSAGE"
  obtain out where out: "out = ''a.go:5:3: bad'' @ nl"
    by simp
  have "executeLinter e fl name command ''PATH:LINE:COL:MESSAGE'' paths
      = extract_lines ?re fl name (Split_nl out)"
    using assms(1-3) unfolding out [symmetric]
    by (simp add: executeLinter_def predefined_PLCM)
  also have "\<dots> = extract_lines ?re fl name [''a.go:5:3: bad'', []]"
    unfolding out example_split ..
  also have "\<dots> = Inr [finish_issue fl name
      \<lparr>severity = [], path = ''a.go'', line = 5, col = 3, message = ''bad''\<rparr>]"
    by (simp add: example_match empty_line_no_match names_PLCM example_fields
        del: set_fields.simps)
  finally show ?thesis
    using assms(4) by (simp add: finish_issue_def Let_def split: option.splits)
qed

lemma Compile_tab_PLCM:
  "Compile (env_of out err) pat_PATH_LINE_COL_MESSAGE = Some (regexp_of re_PATH_LINE_COL_MESSAGE)"
  by (simp add: env_of_def Compile_tab_def
      pat_PATH_LINE_COL_MESSAGE_def pat_PATH_LINE_MESSAGE_def pat_PATH_LINE_def bsl_def)

theorem extract_example_witness:
  "executeLinter (env_of (''a.go:5:3: bad'' @ nl) (Some ExitError)) default_flags ''gotype''
      ''gotype {path}'' ''PATH:LINE:COL:MESSAGE'' ''.''
     = Inr [\<lparr>severity = ''error'', path = ''a.go'', line = 5, col = 3, message = ''bad''\<rparr>]"
  using extract_example [OF Compile_tab_PLCM, of "''a.go:5:3: bad'' @ nl" "Some ExitError"
      "''gotype {path}''" "''.''" "Some ExitError" default_flags "''gotype''"]
  by (simp add: env_of_def default_flags_def default_linterMessageOverrideFlag_def
      default_linterSeverityFlag_def)

text \<open>
  Claim C1 says that the final output is sorted by path, then line, then column. The run below
  has one enabled linter, whose output names \<^verbatim>\<open>b.go\<close> before \<^verbatim>\<open>a.go\<close>: main prints the
  Issues in channel order, \<^verbatim>\<open>b.go\<close> first, although \<^verbatim>\<open>a.go\<close> is the smaller path. The
  comparison \<^verbatim>\<open>Less\<close>, which main never calls, holds in both directions between an Issue at
  \<^verbatim>\<open>a.go:5\<close> and one at \<^verbatim>\<open>b.go:1\<close>, so it is not the lexicographic comparison either.
\<close>

theorem output_in_channel_order:
  "main (env_of (''b.go:1:1: x'' @ nl @ ''a.go:1:1: y'' @ nl) None) default_flags {} ''.''
       [(''gotype'', ''gotype {path}:PATH:LINE:COL:MESSAGE'')]
     = Inr [''b.go:1:1:error: x'', ''a.go:1:1:error: y'']
   \<and> ''a.go'' < ''b.go''
   \<and> Less \<lparr>severity = ''error'', path = ''a.go'', line = 5, col = 1, message = ''x''\<rparr>
           \<lparr>severity = ''error'', path = ''b.go'', line = 1, col = 1, message = ''y''\<rparr>
   \<and> Less \<lparr>severity = ''error'', path = ''b.go'', line = 1, col = 1, message = ''y''\<rparr>
           \<lparr>severity = ''error'', path = ''a.go'', line = 5, col = 1, message = ''x''\<rparr>"
  by code_simp







lemma digit_val_bounds: "is_digit c \<Longrightarrow> 0 \<le> digit_val c \<and> digit_val c \<le> 9"
  by (simp add: is_digit_def digit_val_def less_eq_char_def flip: of_nat_of_char [where ?'a = int])

lemma ParseUint_loop_value:
  "list_all is_digit s \<Longrightarrow> 0 \<le> n \<Longrightarrow> n \<le> maxVal32 \<Longrightarrow> ParseUint_loop n s = Inr m \<Longrightarrow>
   m = foldl (\<lambda>n c. 10 * n + digit_val c) n s \<and> m \<le> maxVal32"
proof (induction s arbitrary: n)
  case Nil
  then show ?case by simp
next
  case (Cons d ds)
  let ?n1 = "n * 10 + digit_val d"
  from Cons.prems have d: "0 \<le> digit_val d" "digit_val d \<le> 9"
    using digit_val_bounds [of d] by simp_all
  with Cons.prems have small: "0 \<le> ?n1" "?n1 < 2 ^ 64"
    by (simp_all add: maxVal32_def)
  then have m: "?n1 mod 2 ^ 64 = ?n1"
    by simp
  from Cons.prems m have le: "?n1 \<le> maxVal32" and rec: "ParseUint_loop ?n1 ds = Inr m"
    by (auto simp: Let_def split: if_splits)
  from Cons.IH [OF _ small(1) le rec] Cons.prems(1) show ?case
    by (simp add: mult.commute)
qed

lemma ParseInt_out_of_range:
  assumes "s \<noteq> []" and "list_all is_digit s" and "dec_value s > 2 ^ 31 - 1"
  shows "\<exists>e. ParseInt s = Inl e"
proof -
  from assms(1,2) have "is_digit (hd s)"
    by (cases s) simp_all
  then have nosign: "hd s \<noteq> CHR ''+''" "hd s \<noteq> CHR ''-''"
    by (auto simp: is_digit_def less_eq_char_def)
  show ?thesis
  proof (cases "ParseUint_loop 0 s")
    case (Inl e)
    with assms(1) nosign show ?thesis
      by (simp add: ParseInt_def ParseUint_def)
  next
    case (Inr un)
    from ParseUint_loop_value [OF assms(2) _ _ Inr] have "un = dec_value s"
      by (simp add: dec_value_def maxVal32_def)
    with assms(1,3) nosign Inr show ?thesis
      by (simp add: ParseInt_def ParseUint_def)
  qed
qed

lemma set_fields_numeral_abort:
  "k < length names \<Longrightarrow> i + k < length g \<Longrightarrow> names ! k = ''line'' \<or> names ! k = ''col'' \<Longrightarrow>
   ParseInt (g ! (i + k)) = Inl e \<Longrightarrow> \<exists>a. set_fields i names g issue = Inl a"
proof (induction names arbitrary: i k issue)
  case Nil
  then show ?case by simp
next
  case (Cons name names)
  show ?case
  proof (cases k)
    case 0
    with Cons.prems show ?thesis by auto
  next
    case (Suc k')
    with Cons.prems have "\<exists>a. set_fields (Suc i) names g issue' = Inl a" for issue'
      using Cons.IH [of k' "Suc i" issue'] by simp
    then show ?thesis
      by (auto simp: Let_def split: sum.splits)
  qed
qed

lemma set_fields_abort_kind:
  "set names \<subseteq> group_names \<Longrightarrow> i + length names \<le> length g \<Longrightarrow>
   set_fields i names g issue = Inl a \<Longrightarrow> a = line_invalid \<or> a = col_invalid"
proof (induction names arbitrary: i issue)
  case Nil
  then show ?case by simp
next
  case (Cons name names)
  from Cons.prems(1) have nm: "name \<in> group_names" and rest: "set names \<subseteq> group_names"
    by simp_all
  from Cons.prems(2) have len: "Suc i + length names \<le> length g" and i: "i < length g"
    by simp_all
  have step: "set_fields (Suc i) names g issue' = Inl a \<Longrightarrow> a = line_invalid \<or> a = col_invalid"
    for issue'
    using Cons.IH [OF rest len] by blast
  from Cons.prems(3) i nm show ?case
    by (auto simp: Let_def group_names_def split: sum.splits if_splits dest: step)
qed

lemma extract_lines_abort:
  "l \<in> set ls \<Longrightarrow> FindAllSubmatch re l = g0 # gs \<Longrightarrow>
   set_fields 0 (SubexpNames re) g0 Issue_zero = Inl a \<Longrightarrow>
   \<exists>a'. extract_lines re fl name ls = Inl a'"
proof (induction ls)
  case Nil
  then show ?case by simp
next
  case (Cons x xs)
  show ?case
  proof (cases "x = l")
    case True
    with Cons.prems show ?thesis by simp
  next
    case False
    with Cons.prems Cons.IH obtain a' where "extract_lines re fl name xs = Inl a'"
      by auto
    then show ?thesis
      by (auto split: list.splits sum.splits)
  qed
qed

lemma extract_lines_abort_kind:
  "groups_wf re ls \<Longrightarrow> set (SubexpNames re) \<subseteq> group_names \<Longrightarrow>
   extract_lines re fl name ls = Inl a \<Longrightarrow> a = line_invalid \<or> a = col_invalid"
proof (induction ls)
  case Nil
  then show ?case by simp
next
  case (Cons x xs)
  from Cons.prems(1) have wf: "groups_wf re xs"
    by (simp add: groups_wf_def)
  show ?case
  proof (cases "FindAllSubmatch re x")
    case Nil
    with Cons wf show ?thesis by simp
  next
    case (Cons g0 gs)
    with Cons.prems(1) have len: "0 + length (SubexpNames re) \<le> length g0"
      by (simp add: groups_wf_def)
    show ?thesis
    proof (cases "set_fields 0 (SubexpNames re) g0 Issue_zero")
      case (Inl b)
      with set_fields_abort_kind [OF Cons.prems(2) len Inl] Cons Cons.prems(3) show ?thesis
        by simp
    next
      case (Inr issue)
      with Cons Cons.prems(3) have "extract_lines re fl name xs = Inl a"
        by (simp split: sum.splits)
      with Cons.IH wf Cons.prems(2) show ?thesis by blast
    qed
  qed
qed

text \<open>
  Claim C10: when the output is extracted and, on some line, the first match has a group named
  \<^verbatim>\<open>line\<close> or \<^verbatim>\<open>col\<close> whose text is a run of decimal digits denoting a value above
  \<open>2 ^ 31 - 1\<close>, executeLinter ends the process with a fatal error; when the pattern has only
  the group names that executeLinter accepts, the fatal error is one of the two
  \<^verbatim>\<open>matched invalid integer\<close> errors.
\<close>

theorem numeral_above_int32_fatal:
  assumes "Compile e (case predefinedPatterns pattern of Some p \<Rightarrow> p | None \<Rightarrow> pattern) = Some re"
    and "CombinedOutput e (Replace command ''{path}'' paths) = (out, err)"
    and "err \<noteq> Some OtherError"
    and "l \<in> set (Split_nl out)"
    and "FindAllSubmatch re l = g0 # gs"
    and "i < length (SubexpNames re)" and "i < length g0"
    and "SubexpNames re ! i = ''line'' \<or> SubexpNames re ! i = ''col''"
    and "g0 ! i \<noteq> []" and "list_all is_digit (g0 ! i)"
    and "dec_value (g0 ! i) > 2 ^ 31 - 1"
  shows "\<exists>a. executeLinter e fl name command pattern paths = Inl a
    \<and> (groups_wf re (Split_nl out) \<and> set (SubexpNames re) \<subseteq> group_names
         \<longrightarrow> a = line_invalid \<or> a = col_invalid)"
proof -
  from assms(9-11) obtain er where "ParseInt (g0 ! i) = Inl er"
    using ParseInt_out_of_range by blast
  with assms(6-8) obtain b where "set_fields 0 (SubexpNames re) g0 Issue_zero = Inl b"
    using set_fields_numeral_abort [of i "SubexpNames re" 0 g0 er Issue_zero] by auto
  with assms(4,5) obtain a where a: "extract_lines re fl name (Split_nl out) = Inl a"
    using extract_lines_abort by blast
  with assms(1-3) have "executeLinter e fl name command pattern paths = Inl a"
    by (simp add: executeLinter_def)
  with a show ?thesis
    using extract_lines_abort_kind by blast
qed

lemma big_Compile:
  "Compile (env_of (''a.go:2147483648:3: bad'' @ nl) None)
     (case predefinedPatterns ''PATH:LINE:COL:MESSAGE'' of Some p \<Rightarrow> p
      | None \<Rightarrow> ''PATH:LINE:COL:MESSAGE'')
    = Some (regexp_of re_PATH_LINE_COL_MESSAGE)"
  by (simp add: predefined_PLCM Compile_tab_PLCM)

theorem numeral_above_int32_fatal_witness:
  "\<exists>a. executeLinter (env_of (''a.go:2147483648:3: bad'' @ nl) None) default_flags ''golint''
         ''golint {path}'' ''PATH:LINE:COL:MESSAGE'' ''.'' = Inl a
       \<and> (a = line_invalid \<or> a = col_invalid)"
proof -
  let ?re = "regexp_of re_PATH_LINE_COL_MESSAGE"
  let ?out = "''a.go:2147483648:3: bad'' @ nl"
  let ?g0 = "[''a.go:2147483648:3: bad'', ''a.go'', ''2147483648'', ''3'', ''bad'']"
  have out: "CombinedOutput (env_of ?out None) (Replace ''golint {path}'' ''{path}'' ''.'')
      = (?out, None)"
    by (simp add: env_of_def)
  have err: "None \<noteq> Some OtherError"
    by simp
  have l: "''a.go:2147483648:3: bad'' \<in> set (Split_nl ?out)"
    by code_simp
  have m: "FindAllSubmatch ?re ''a.go:2147483648:3: bad'' = ?g0 # []"
    by code_simp
  have i1: "(2::nat) < length (SubexpNames ?re)" and i2: "(2::nat) < length ?g0"
    and nm: "SubexpNames ?re ! 2 = ''line'' \<or> SubexpNames ?re ! 2 = ''col''"
    by (simp_all add: names_PLCM)
  have d: "?g0 ! 2 \<noteq> []" "list_all is_digit (?g0 ! 2)" "dec_value (?g0 ! 2) > 2 ^ 31 - 1"
    by code_simp+
  have wf: "groups_wf ?re (Split_nl ?out)"
    by code_simp
  have names: "set (SubexpNames ?re) \<subseteq> group_names"
    by (simp add: names_PLCM group_names_def)
  from numeral_above_int32_fatal [OF big_Compile out err l m i1 i2 nm d,
      of default_flags "''golint''"] wf names
  show ?thesis
    by blast
qed

lemma count_update:
  "i < length xs \<Longrightarrow>
   length (filter (\<lambda>q. q = p) (xs[i := y])) + (if xs ! i = p then 1 else 0)
     = length (filter (\<lambda>q. q = p) xs) + (if y = p then 1 else 0)"
proof (induction xs arbitrary: i)
  case Nil
  then show ?case by simp
next
  case (Cons x xs)
  show ?case
  proof (cases i)
    case 0
    then show ?thesis by simp
  next
    case (Suc j)
    with Cons.prems Cons.IH [of j] show ?thesis by (auto split: if_splits)
  qed
qed

lemma step_invariant:
  assumes "holding s = chan_len s" and "chan_len s \<le> K"
  shows "holding (step K s i) = chan_len (step K s i) \<and> chan_len (step K s i) \<le> K"
proof (cases "i < length (pcs s)")
  case False
  with assms show ?thesis by (simp add: step_def)
next
  case True
  note upd = count_update [OF True]
  show ?thesis
  proof (cases "pcs s ! i")
    case Waiting
    with assms True upd [of Running Running] upd [of Releasing Running] show ?thesis
      by (auto simp: step_def holding_def count_pc_def)
  next
    case Running
    with assms True upd [of Running Releasing] upd [of Releasing Releasing] show ?thesis
      by (auto simp: step_def holding_def count_pc_def)
  next
    case Releasing
    with assms True upd [of Running Finished] upd [of Releasing Finished] show ?thesis
      by (auto simp: step_def holding_def count_pc_def)
  next
    case Finished
    with assms True show ?thesis by (simp add: step_def)
  qed
qed

lemma foldl_invariant:
  "holding s = chan_len s \<Longrightarrow> chan_len s \<le> K \<Longrightarrow>
   holding (foldl (step K) s sched) = chan_len (foldl (step K) s sched)
   \<and> chan_len (foldl (step K) s sched) \<le> K"
proof (induction sched arbitrary: s)
  case Nil
  then show ?case by simp
next
  case (Cons i sched)
  from step_invariant [OF Cons.prems] Cons.IH [of "step K s i"] show ?case
    by simp
qed

lemma init_invariant: "holding (init_pool n) = chan_len (init_pool n) \<and> chan_len (init_pool n) \<le> K"
  by (simp add: holding_def count_pc_def init_pool_def)

text \<open>
  Claim C9: after any schedule of any number of tasks, at most \<open>K\<close> tasks are inside
  executeLinter, and while \<open>K\<close> values are buffered a task before its send stays there.
\<close>

theorem concurrency_ceiling:
  "count_pc Running (run_schedule K n sched) \<le> K
   \<and> (chan_len (run_schedule K n sched) = K \<and> i < n
        \<and> pcs (run_schedule K n sched) ! i = Waiting
      \<longrightarrow> step K (run_schedule K n sched) i = run_schedule K n sched)"
proof -
  have "holding (run_schedule K n sched) = chan_len (run_schedule K n sched)
      \<and> chan_len (run_schedule K n sched) \<le> K"
    unfolding run_schedule_def using init_invariant foldl_invariant by blast
  then show ?thesis
    by (auto simp: holding_def step_def)
qed

lemma sched_demo:
  "run_schedule 2 3 [0, 1, 2] = \<lparr>chan_len = 2, pcs = [Running, Running, Waiting]\<rparr>"
  by code_simp

theorem concurrency_ceiling_witness:
  "run_schedule 2 3 [0, 1, 2] = \<lparr>chan_len = 2, pcs = [Running, Running, Waiting]\<rparr>
   \<and> count_pc Running (run_schedule 2 3 [0, 1, 2]) \<le> 2
   \<and> step 2 (run_schedule 2 3 [0, 1, 2]) 2 = run_schedule 2 3 [0, 1, 2]"
  using concurrency_ceiling [of 2 3 "[0, 1, 2]" 2] sched_demo
  by simp

section \<open>The first match of the predefined pattern, in general\<close>

lemma rep_splits_first:
  "\<exists>xs. rep_splits p s = (takeWhile p s, dropWhile p s) # xs"
proof (induction s)
  case Nil
  show ?case by simp
next
  case (Cons c cs)
  then obtain xs where "rep_splits p cs = (takeWhile p cs, dropWhile p cs) # xs"
    by blast
  then show ?case by simp
qed

lemma star_first: "\<exists>xs. m_atom (Star k) s = ([], dropWhile (in_class k) s) # xs"
  using rep_splits_first [of "in_class k" s] by auto

lemma plus_first:
  "takeWhile (in_class k) s \<noteq> [] \<Longrightarrow>
   \<exists>xs. m_atom (Plus k) s = ([], dropWhile (in_class k) s) # xs"
  using rep_splits_first [of "in_class k" s] by auto

lemma seq_first:
  "m_atom a s = (c1, r) # xs \<Longrightarrow> m_seq as r = (c2, r2) # ys \<Longrightarrow>
   \<exists>zs. m_seq (a # as) s = (c1 @ c2, r2) # zs"
  by simp

lemma take_takeWhile: "take (length s - length (dropWhile p s)) s = takeWhile p s"
proof -
  have "length s = length (takeWhile p s) + length (dropWhile p s)"
    by (metis length_append takeWhile_dropWhile_id)
  then have "length s - length (dropWhile p s) = length (takeWhile p s)"
    by simp
  then show ?thesis
    by (simp add: takeWhile_eq_take [symmetric])
qed

lemma group_plus_first:
  assumes "takeWhile (in_class k) s \<noteq> []"
  shows "\<exists>ys. m_atom (Group nm [Plus k]) s
           = ([takeWhile (in_class k) s], dropWhile (in_class k) s) # ys"
proof -
  from plus_first [OF assms] obtain xs where
    "m_atom (Plus k) s = ([], dropWhile (in_class k) s) # xs" by blast
  then show ?thesis
    by (simp add: take_takeWhile)
qed

lemma group_star_first:
  "\<exists>ys. m_atom (Group nm [Star k]) s
           = ([takeWhile (in_class k) s], dropWhile (in_class k) s) # ys"
proof -
  from star_first obtain xs where
    "m_atom (Star k) s = ([], dropWhile (in_class k) s) # xs" by blast
  then show ?thesis
    by (simp add: take_takeWhile)
qed

lemma digit_not_colon: "is_digit c \<Longrightarrow> c \<noteq> CHR '':''"
  by (auto simp: is_digit_def less_eq_char_def)

lemma digit_not_nl: "is_digit c \<Longrightarrow> c \<noteq> CHR 0x0A"
  by (auto simp: is_digit_def less_eq_char_def)

lemma takeWhile_upto:
  "(\<And>x. x \<in> set u \<Longrightarrow> P x) \<Longrightarrow> \<not> P c \<Longrightarrow> takeWhile P (u @ c # v) = u"
  by (simp add: takeWhile_append2)

lemma dropWhile_upto:
  "(\<And>x. x \<in> set u \<Longrightarrow> P x) \<Longrightarrow> \<not> P c \<Longrightarrow> dropWhile P (u @ c # v) = c # v"
  by (simp add: dropWhile_append2)

lemma match_PLCM:
  assumes p: "p \<noteq> []" "CHR '':'' \<notin> set p"
    and dl: "dl \<noteq> []" "list_all is_digit dl"
    and dc: "dc \<noteq> []" "list_all is_digit dc"
    and t: "takeWhile (in_class Space) t = []" "CHR 0x0A \<notin> set t"
  shows "\<exists>ys. m_seq re_PATH_LINE_COL_MESSAGE (p @ CHR '':'' # dl @ CHR '':'' # dc @ CHR '':'' # t)
           = ([p, dl, dc, t], []) # ys"
proof -
  let ?c = "CHR '':''"
  let ?s3 = "dc @ ?c # t"
  let ?s2 = "dl @ ?c # ?s3"
  let ?s1 = "p @ ?c # ?s2"
  have tw1: "takeWhile (in_class (NotChar ?c)) ?s1 = p"
    by (rule takeWhile_upto) (use p(2) in auto)
  have dw1: "dropWhile (in_class (NotChar ?c)) ?s1 = ?c # ?s2"
    by (rule dropWhile_upto) (use p(2) in auto)
  have tw2: "takeWhile (in_class Digit) ?s2 = dl"
    by (rule takeWhile_upto) (use dl(2) digit_not_colon in \<open>auto simp: list_all_iff\<close>)
  have dw2: "dropWhile (in_class Digit) ?s2 = ?c # ?s3"
    by (rule dropWhile_upto) (use dl(2) digit_not_colon in \<open>auto simp: list_all_iff\<close>)
  have tw3: "takeWhile (in_class Digit) ?s3 = dc"
    by (rule takeWhile_upto) (use dc(2) digit_not_colon in \<open>auto simp: list_all_iff\<close>)
  have dw3: "dropWhile (in_class Digit) ?s3 = ?c # t"
    by (rule dropWhile_upto) (use dc(2) digit_not_colon in \<open>auto simp: list_all_iff\<close>)
  have dw4: "dropWhile (in_class Space) t = t"
    using t(1) takeWhile_dropWhile_id [of "in_class Space" t] by simp
  have tw5: "takeWhile (in_class Dot) t = t" and dw5: "dropWhile (in_class Dot) t = []"
    using t(2) by (auto simp: takeWhile_eq_all_conv)
  obtain y8 where m8: "m_atom (Group ''message'' [Star Dot]) t = ([t], []) # y8"
    using group_star_first [of "''message''" Dot t] by (auto simp: tw5 dw5)
  obtain y7 where m7: "m_atom (Star Space) t = ([], t) # y7"
    using star_first [of Space t] by (auto simp: dw4)
  obtain y5 where m5: "m_atom (Group ''col'' [Plus Digit]) ?s3 = ([dc], ?c # t) # y5"
    using group_plus_first [of Digit ?s3 "''col''"] dc(1) by (auto simp: tw3 dw3)
  obtain y3 where m3: "m_atom (Group ''line'' [Plus Digit]) ?s2 = ([dl], ?c # ?s3) # y3"
    using group_plus_first [of Digit ?s2 "''line''"] dl(1) by (auto simp: tw2 dw2)
  obtain y1 where m1: "m_atom (Group ''path'' [Plus (NotChar ?c)]) ?s1 = ([p], ?c # ?s2) # y1"
    using group_plus_first [of "NotChar ?c" ?s1 "''path''"] p(1) by (auto simp: tw1 dw1)
  have lit: "m_atom (Lit ?c) (?c # s) = ([], s) # []" for s
    by simp
  have q8: "\<exists>zs. m_seq [Group ''message'' [Star Dot]] t = ([t], []) # zs"
    using seq_first [OF m8, of "[]" "[]" "[]" "[]"] by simp
  then obtain z8 where s8: "m_seq [Group ''message'' [Star Dot]] t = ([t], []) # z8" ..
  from seq_first [OF m7 s8] obtain z7 where
    s7: "m_seq [Star Space, Group ''message'' [Star Dot]] t = ([t], []) # z7" by auto
  from seq_first [OF lit s7] obtain z6 where
    s6: "m_seq [Lit ?c, Star Space, Group ''message'' [Star Dot]] (?c # t) = ([t], []) # z6"
    by auto
  from seq_first [OF m5 s6] obtain z5 where
    s5: "m_seq [Group ''col'' [Plus Digit], Lit ?c, Star Space, Group ''message'' [Star Dot]] ?s3
           = ([dc, t], []) # z5"
    by auto
  from seq_first [OF lit s5] obtain z4 where
    s4: "m_seq [Lit ?c, Group ''col'' [Plus Digit], Lit ?c, Star Space,
                Group ''message'' [Star Dot]] (?c # ?s3) = ([dc, t], []) # z4"
    by auto
  from seq_first [OF m3 s4] obtain z3 where
    s3: "m_seq [Group ''line'' [Plus Digit], Lit ?c, Group ''col'' [Plus Digit], Lit ?c,
                Star Space, Group ''message'' [Star Dot]] ?s2 = ([dl, dc, t], []) # z3"
    by auto
  from seq_first [OF lit s3] obtain z2 where
    s2: "m_seq [Lit ?c, Group ''line'' [Plus Digit], Lit ?c, Group ''col'' [Plus Digit], Lit ?c,
                Star Space, Group ''message'' [Star Dot]] (?c # ?s2) = ([dl, dc, t], []) # z2"
    by auto
  from seq_first [OF m1 s2] obtain z1 where
    "m_seq [Group ''path'' [Plus (NotChar ?c)], Lit ?c, Group ''line'' [Plus Digit], Lit ?c,
            Group ''col'' [Plus Digit], Lit ?c, Star Space, Group ''message'' [Star Dot]] ?s1
       = ([p, dl, dc, t], []) # z1"
    by auto
  then show ?thesis
    unfolding re_PATH_LINE_COL_MESSAGE_def by blast
qed

lemma find_leftmost_here: "match_at re s = Some g \<Longrightarrow> find_leftmost re s = Some (0, g)"
  by (cases s) simp_all

lemma FindAllSubmatch_PLCM:
  assumes "p \<noteq> []" "CHR '':'' \<notin> set p"
    and "dl \<noteq> []" "list_all is_digit dl"
    and "dc \<noteq> []" "list_all is_digit dc"
    and "takeWhile (in_class Space) t = []" "CHR 0x0A \<notin> set t"
    and L: "L = p @ CHR '':'' # dl @ CHR '':'' # dc @ CHR '':'' # t"
  shows "\<exists>gs. FindAllSubmatch (regexp_of re_PATH_LINE_COL_MESSAGE) L = [L, p, dl, dc, t] # gs"
proof -
  let ?re = re_PATH_LINE_COL_MESSAGE
  from match_PLCM [OF assms(1-8)] L obtain ys where
    "m_seq ?re L = ([p, dl, dc, t], []) # ys" by blast
  then have "match_at ?re L = Some [L, p, dl, dc, t]"
    by (simp add: match_at_def)
  then have "find_leftmost ?re L = Some (0, [L, p, dl, dc, t])"
    by (rule find_leftmost_here)
  then have "doExecute ?re L 0 = Some (0, length L, [L, p, dl, dc, t])"
    by (simp add: doExecute_def)
  then have "allMatches ?re L 0 (- 1)
      = [L, p, dl, dc, t] # allMatches ?re L (if length L = 0 then 0 + 1 else length L) (int (length L))"
    by (subst allMatches.simps) (simp add: Let_def)
  then show ?thesis
    by (simp add: regexp_of_def)
qed

lemma Split_nl_single: "CHR 0x0A \<notin> set s \<Longrightarrow> Split_nl s = [s]"
  by (induction s) auto

lemma digit_char_props: "d < 10 \<Longrightarrow> is_digit (digit_char d) \<and> digit_val (digit_char d) = int d"
proof -
  assume "d < 10"
  then have "d \<in> {0, 1, 2, 3, 4, 5, 6, 7, 8, 9}"
    by auto
  then show ?thesis
    by (auto simp: digit_char_def is_digit_def digit_val_def less_eq_char_def)
qed

lemma digits10_nonempty: "digits10 n \<noteq> []"
  by (subst digits10.simps) simp

lemma digits10_digits: "list_all is_digit (digits10 n)"
proof (induction n rule: digits10.induct)
  case (1 n)
  show ?case
  proof (cases "n < 10")
    case True
    then show ?thesis
      by (subst digits10.simps) (simp add: digit_char_props)
  next
    case False
    with 1 show ?thesis
      by (subst digits10.simps) (simp add: digit_char_props)
  qed
qed

lemma ParseUint_loop_append:
  "ParseUint_loop n (xs @ ys)
     = (case ParseUint_loop n xs of Inl e \<Rightarrow> Inl e | Inr m \<Rightarrow> ParseUint_loop m ys)"
  by (induction xs arbitrary: n) (simp_all add: Let_def)

lemma ParseUint_loop_one:
  assumes "d < 10" and "0 \<le> a" and "a * 10 + int d \<le> maxVal32"
  shows "ParseUint_loop a [digit_char d] = Inr (a * 10 + int d)"
proof -
  from assms have small: "a * 10 + int d < 2 ^ 64" "a < cutoff64"
    by (simp_all add: maxVal32_def cutoff64_def)
  with assms have "(a * 10 + int d) mod 2 ^ 64 = a * 10 + int d"
    by simp
  with assms small show ?thesis
    by (simp add: digit_char_props Let_def)
qed

lemma ParseUint_loop_digits10:
  "int n \<le> maxVal32 \<Longrightarrow> ParseUint_loop 0 (digits10 n) = Inr (int n)"
proof (induction n rule: digits10.induct)
  case (1 n)
  show ?case
  proof (cases "n < 10")
    case True
    with ParseUint_loop_one [of n 0] "1.prems" show ?thesis
      by (subst digits10.simps) simp
  next
    case False
    from "1.prems" have "int (n div 10) \<le> maxVal32"
      by (simp add: maxVal32_def)
    with False "1.IH" have rec: "ParseUint_loop 0 (digits10 (n div 10)) = Inr (int (n div 10))"
      by simp
    have "int (n div 10) * 10 + int (n mod 10) = int n"
      by (simp add: zdiv_int zmod_int)
    with ParseUint_loop_one [of "n mod 10" "int (n div 10)"] "1.prems"
    have "ParseUint_loop (int (n div 10)) [digit_char (n mod 10)] = Inr (int n)"
      by simp
    with False rec show ?thesis
      by (subst digits10.simps) (simp add: ParseUint_loop_append)
  qed
qed

lemma ParseInt_fmt_d:
  assumes "0 \<le> n" and "n < 2 ^ 31"
  shows "ParseInt (fmt_d n) = Inr n"
proof -
  let ?s = "digits10 (nat n)"
  have ne: "?s \<noteq> []"
    by (rule digits10_nonempty)
  with digits10_digits [of "nat n"] have "is_digit (hd ?s)"
    by (cases ?s) simp_all
  then have nosign: "hd ?s \<noteq> CHR ''+''" "hd ?s \<noteq> CHR ''-''"
    by (auto simp: is_digit_def less_eq_char_def)
  from assms have "ParseUint_loop 0 ?s = Inr n"
    using ParseUint_loop_digits10 [of "nat n"] by (simp add: maxVal32_def)
  with assms ne nosign show ?thesis
    by (simp add: ParseInt_def ParseUint_def fmt_d_def)
qed

lemma fmt_d_digits: "0 \<le> n \<Longrightarrow> fmt_d n \<noteq> [] \<and> list_all is_digit (fmt_d n)"
  by (simp add: fmt_d_def digits10_nonempty digits10_digits)

text \<open>
  Claim C3 says that rendering an Issue, extracting the rendered line with the same pattern and
  rendering the result reproduces the line. The Issue below is what gotype yields with
  PATH:LINE:COL:MESSAGE on \<^verbatim>\<open>a.go:5:3: bad\<close>. Its rendering carries the severity between the
  column and the message; extraction takes it into the message, and the second rendering,
  \<^verbatim>\<open>a.go:5:3:error: error: bad\<close>, is not the first.
\<close>

theorem render_extract_render_counterexample:
  "Issue_String \<lparr>severity = ''error'', path = ''a.go'', line = 5, col = 3, message = ''bad''\<rparr>
     = ''a.go:5:3:error: bad''
   \<and> executeLinter (env_of ''a.go:5:3:error: bad'' None) default_flags ''gotype''
        ''gotype {path}'' ''PATH:LINE:COL:MESSAGE'' ''.''
       = Inr [\<lparr>severity = ''error'', path = ''a.go'', line = 5, col = 3,
                message = ''error: bad''\<rparr>]
   \<and> Issue_String \<lparr>severity = ''error'', path = ''a.go'', line = 5, col = 3,
         message = ''error: bad''\<rparr> = ''a.go:5:3:error: error: bad''
   \<and> ''a.go:5:3:error: error: bad'' \<noteq> ''a.go:5:3:error: bad''"
  by code_simp

text \<open>
  Claim C3, amended: for an Issue with a non-empty path without colon and newline, a line
  number from 0 and a column from 1 that fit 32 bits, the severity warning or error and a
  message without newline, extracting its rendered line with the predefined pattern
  PATH:LINE:COL:MESSAGE yields one Issue with the same path, line and column; for a linter
  without message override its message is the severity, a colon, a space and the message of
  the original, and its rendering is never the line that was extracted.
\<close>

theorem render_extract_render:
  assumes p: "path m \<noteq> []" "CHR '':'' \<notin> set (path m)" "CHR 0x0A \<notin> set (path m)"
    and l: "0 \<le> line m" "line m < 2 ^ 31"
    and c: "0 < col m" "col m < 2 ^ 31"
    and sev: "severity m = Warning \<or> severity m = Error"
    and msg: "CHR 0x0A \<notin> set (message m)"
    and env: "Compile e pat_PATH_LINE_COL_MESSAGE = Some (regexp_of re_PATH_LINE_COL_MESSAGE)"
      "CombinedOutput e (Replace command ''{path}'' paths) = (Issue_String m, err)"
      "err \<noteq> Some OtherError"
    and m': "m' = finish_issue fl name
               \<lparr>severity = [], path = path m, line = line m, col = col m,
                 message = severity m @ '': '' @ message m\<rparr>"
  shows "executeLinter e fl name command ''PATH:LINE:COL:MESSAGE'' paths = Inr [m']
    \<and> path m' = path m \<and> line m' = line m \<and> col m' = col m
    \<and> (linterMessageOverrideFlag fl name = None \<longrightarrow>
         message m' = severity m @ '': '' @ message m
         \<and> Issue_String m' \<noteq> Issue_String m)"
proof -
  let ?re = "regexp_of re_PATH_LINE_COL_MESSAGE"
  let ?t = "severity m @ '': '' @ message m"
  let ?dl = "fmt_d (line m)"
  let ?dc = "fmt_d (col m)"
  obtain L where LS: "L = Issue_String m"
    by simp
  with c have L: "L = path m @ CHR '':'' # ?dl @ CHR '':'' # ?dc @ CHR '':'' # ?t"
    by (simp add: Issue_String_def)
  have dl: "?dl \<noteq> []" "list_all is_digit ?dl" and dc: "?dc \<noteq> []" "list_all is_digit ?dc"
    using l c fmt_d_digits [of "line m"] fmt_d_digits [of "col m"] by simp_all
  have sp: "takeWhile (in_class Space) ?t = []"
    using sev by (auto simp: Warning_def Error_def)
  have nlt: "CHR 0x0A \<notin> set ?t"
    using sev msg by (auto simp: Warning_def Error_def)
  from FindAllSubmatch_PLCM [OF p(1,2) dl dc sp nlt L] obtain gs where
    fa: "FindAllSubmatch ?re L = [L, path m, ?dl, ?dc, ?t] # gs" by blast
  have "CHR 0x0A \<notin> set L"
    unfolding L using p(3) nlt dl(2) dc(2) digit_not_nl by (auto simp: list_all_iff)
  then have split: "Split_nl L = [L]"
    by (rule Split_nl_single)
  have fields: "set_fields 0 [[], ''path'', ''line'', ''col'', ''message'']
      [L, path m, ?dl, ?dc, ?t] Issue_zero
      = Inr \<lparr>severity = [], path = path m, line = line m, col = col m, message = ?t\<rparr>"
    using l c by (simp add: ParseInt_fmt_d Issue_zero_def)
  have "extract_lines ?re fl name [L] = Inr [m']"
    unfolding m' using fields by (simp add: fa names_PLCM del: set_fields.simps)
  with env split have run: "executeLinter e fl name command ''PATH:LINE:COL:MESSAGE'' paths = Inr [m']"
    unfolding LS [symmetric] by (simp add: executeLinter_def predefined_PLCM)
  have same: "path m' = path m \<and> line m' = line m \<and> col m' = col m"
    unfolding m' by (simp add: finish_issue_def Let_def split: option.splits)
  have again: "message m' = ?t \<and> Issue_String m' \<noteq> Issue_String m"
    if "linterMessageOverrideFlag fl name = None"
  proof -
    from that have mm: "message m' = ?t"
      unfolding m' by (simp add: finish_issue_def Let_def split: option.splits)
    with same c have "length (Issue_String m') \<noteq> length (Issue_String m)"
      by (simp add: Issue_String_def)
    with mm show ?thesis by auto
  qed
  from run same again show ?thesis by blast
qed

lemma gotype_render_env:
  "CombinedOutput
     (env_of (Issue_String \<lparr>severity = ''error'', path = ''a.go'', line = 5, col = 3,
        message = ''bad''\<rparr>) None)
     (Replace ''gotype {path}'' ''{path}'' ''.'')
   = (Issue_String \<lparr>severity = ''error'', path = ''a.go'', line = 5, col = 3,
        message = ''bad''\<rparr>, None)"
  by (simp add: env_of_def)

lemma gotype_finish:
  "\<lparr>severity = ''error'', path = ''a.go'', line = 5, col = 3, message = ''error: bad''\<rparr>
    = finish_issue default_flags ''gotype''
        \<lparr>severity = [], path = path \<lparr>severity = ''error'', path = ''a.go'', line = 5, col = 3, message = ''bad''\<rparr>,
          line = line \<lparr>severity = ''error'', path = ''a.go'', line = 5, col = 3, message = ''bad''\<rparr>,
          col = col \<lparr>severity = ''error'', path = ''a.go'', line = 5, col = 3, message = ''bad''\<rparr>,
          message = severity \<lparr>severity = ''error'', path = ''a.go'', line = 5, col = 3, message = ''bad''\<rparr>
            @ '': '' @ message \<lparr>severity = ''error'', path = ''a.go'', line = 5, col = 3, message = ''bad''\<rparr>\<rparr>"
  by code_simp

theorem render_extract_render_witness:
  "executeLinter
     (env_of (Issue_String \<lparr>severity = ''error'', path = ''a.go'', line = 5, col = 3,
        message = ''bad''\<rparr>) None)
     default_flags ''gotype'' ''gotype {path}'' ''PATH:LINE:COL:MESSAGE'' ''.''
    = Inr [\<lparr>severity = ''error'', path = ''a.go'', line = 5, col = 3, message = ''error: bad''\<rparr>]
   \<and> Issue_String \<lparr>severity = ''error'', path = ''a.go'', line = 5, col = 3,
         message = ''error: bad''\<rparr>
       \<noteq> Issue_String \<lparr>severity = ''error'', path = ''a.go'', line = 5, col = 3,
         message = ''bad''\<rparr>"
proof -
  let ?m = "\<lparr>severity = ''error'', path = ''a.go'', line = 5, col = 3, message = ''bad''\<rparr>"
  have p: "path ?m \<noteq> []" "CHR '':'' \<notin> set (path ?m)" "CHR 0x0A \<notin> set (path ?m)"
    and l: "0 \<le> line ?m" "line ?m < 2 ^ 31" and c: "0 < col ?m" "col ?m < 2 ^ 31"
    and sev: "severity ?m = Warning \<or> severity ?m = Error"
    and msg: "CHR 0x0A \<notin> set (message ?m)"
    by (simp_all add: Error_def)
  have err: "None \<noteq> Some OtherError"
    by simp
  have no_override: "linterMessageOverrideFlag default_flags ''gotype'' = None"
    by (simp add: default_flags_def default_linterMessageOverrideFlag_def)
  from render_extract_render [OF p l c sev msg Compile_tab_PLCM gotype_render_env err gotype_finish]
    no_override
  show ?thesis
    by blast
qed

end
